theory Spec2Isabelle
  imports Complex_Main
begin

section \<open>JavaScript values\<close>

text \<open>
  The dashboard's data module (\<^verbatim>\<open>DataManager\<close>) and the completeness check of the
  application module (\<^verbatim>\<open>App.checkDataCompleteness\<close>) are embedded as HOL functions.

  Numbers. A JavaScript number is an IEEE double. Finite numbers are modelled by exact
  rationals: the rounding error of double arithmetic is not modelled, and neither is
  negative zero. The non-finite doubles are kept where the code can produce them
  (\<^verbatim>\<open>Number(...)\<close> of a cell, a division by a zero start weight).

  Strings. A string is a list of 8-bit characters; the source's Japanese literals are
  written as their UTF-8 bytes.
\<close>

datatype jsnum = Fin rat | PosInf | NegInf | NaN

text \<open>A \<^verbatim>\<open>Date\<close> object is its time value: milliseconds since the epoch, or invalid.\<close>

datatype jsdate = InvalidDate | TimeValue int

datatype jsval = Undefined | Null | Bool bool | Num jsnum | Str string | DateObj jsdate

datatype error = RangeError | TypeError

text \<open>\<^verbatim>\<open>!v\<close> is \<open>\<not> truthy v\<close>.\<close>

fun truthy :: "jsval \<Rightarrow> bool" where
  "truthy Undefined = False"
| "truthy Null = False"
| "truthy (Bool b) = b"
| "truthy (Num (Fin x)) = (x \<noteq> 0)"
| "truthy (Num NaN) = False"
| "truthy (Num _) = True"
| "truthy (Str s) = (s \<noteq> [])"
| "truthy (DateObj _) = True"

text \<open>
  Truthiness of a field that holds a finite number or \<^verbatim>\<open>null\<close>/\<^verbatim>\<open>undefined\<close>
  (\<open>None\<close>): a present zero is falsy.
\<close>

fun truthy_num :: "rat option \<Rightarrow> bool" where
  "truthy_num None = False"
| "truthy_num (Some x) = (x \<noteq> 0)"

text \<open>\<^verbatim>\<open>x || d\<close> on such a field.\<close>

fun or_default :: "rat option \<Rightarrow> rat \<Rightarrow> rat" where
  "or_default None d = d"
| "or_default (Some x) d = (if x = 0 then d else x)"


text \<open>\<^verbatim>\<open>Math.abs\<close>, and the comparisons of a number that may be NaN (\<open>None\<close>) with a
  constant: every comparison with NaN is false.\<close>

definition nan_lt :: "rat option \<Rightarrow> rat \<Rightarrow> bool" where
  "nan_lt a c = (case a of None \<Rightarrow> False | Some x \<Rightarrow> x < c)"

definition nan_gt :: "rat option \<Rightarrow> rat \<Rightarrow> bool" where
  "nan_gt a c = (case a of None \<Rightarrow> False | Some x \<Rightarrow> x > c)"

definition nan_abs_le :: "rat option \<Rightarrow> rat \<Rightarrow> bool" where
  "nan_abs_le a c = (case a of None \<Rightarrow> False | Some x \<Rightarrow> \<bar>x\<bar> \<le> c)"

text \<open>\<^verbatim>\<open>Array.prototype.join\<close> on strings.\<close>

fun join :: "string \<Rightarrow> string list \<Rightarrow> string" where
  "join sep [] = []"
| "join sep [x] = x"
| "join sep (x # y # ys) = x @ sep @ join sep (y # ys)"

section \<open>Digits, decimal strings and \<^verbatim>\<open>Number\<close>\<close>

definition is_digit :: "char \<Rightarrow> bool" where
  "is_digit c = (48 \<le> (of_char c :: nat) \<and> (of_char c :: nat) \<le> 57)"

definition digit_val :: "char \<Rightarrow> nat" where
  "digit_val c = of_char c - 48"

definition digit_char :: "nat \<Rightarrow> char" where
  "digit_char n = char_of (48 + n)"

text \<open>The value of a string of decimal digits.\<close>

definition dec_value :: "string \<Rightarrow> nat" where
  "dec_value ds = foldl (\<lambda>acc c. 10 * acc + digit_val c) 0 ds"

text \<open>\<^verbatim>\<open>String(n)\<close> for a natural number and for an integer, in decimal.\<close>

fun show_nat :: "nat \<Rightarrow> string" where
  "show_nat n = (if n < 10 then [digit_char n] else show_nat (n div 10) @ [digit_char (n mod 10)])"

declare show_nat.simps [simp del]

definition show_int :: "int \<Rightarrow> string" where
  "show_int i = (if i < 0 then CHR ''-'' # show_nat (nat (- i)) else show_nat (nat i))"

text \<open>\<^verbatim>\<open>s.padStart(n, c)\<close> with a one-character pad; \<^verbatim>\<open>s.startsWith(p)\<close>;
  \<^verbatim>\<open>s.split(c)\<close> with a one-character separator.\<close>

definition padStart :: "nat \<Rightarrow> char \<Rightarrow> string \<Rightarrow> string" where
  "padStart n c s = replicate (n - length s) c @ s"

definition startsWith :: "string \<Rightarrow> string \<Rightarrow> bool" where
  "startsWith s p = (take (length p) s = p)"

fun split_on :: "char \<Rightarrow> string \<Rightarrow> string list" where
  "split_on c [] = [[]]"
| "split_on c (x # xs) =
     (if x = c then [] # split_on c xs
      else (case split_on c xs of [] \<Rightarrow> [[x]] | p # ps \<Rightarrow> (x # p) # ps))"

text \<open>
  \<^verbatim>\<open>Number(s)\<close> on a string (ECMAScript StringToNumber): white space is trimmed, the
  empty string is 0, then a signed decimal literal with optional fraction and exponent,
  a signed \<^verbatim>\<open>Infinity\<close>, or an unsigned hexadecimal, octal or binary literal; anything
  else is NaN. Only the ASCII white space characters are trimmed here.
\<close>

definition is_space :: "char \<Rightarrow> bool" where
  "is_space c = ((of_char c :: nat) \<in> {9, 10, 11, 12, 13, 32})"

definition trim :: "string \<Rightarrow> string" where
  "trim s = rev (dropWhile is_space (rev (dropWhile is_space s)))"

definition radix_digit :: "nat \<Rightarrow> char \<Rightarrow> nat option" where
  "radix_digit b c =
     (let n = (of_char c :: nat);
          v = (if 48 \<le> n \<and> n \<le> 57 then Some (n - 48)
               else if 97 \<le> n \<and> n \<le> 102 then Some (n - 87)
               else if 65 \<le> n \<and> n \<le> 70 then Some (n - 55)
               else None)
      in case v of None \<Rightarrow> None | Some d \<Rightarrow> if d < b then Some d else None)"

definition radix_literal :: "nat \<Rightarrow> string \<Rightarrow> jsnum" where
  "radix_literal b ds =
     (if ds \<noteq> [] \<and> list_all (\<lambda>c. radix_digit b c \<noteq> None) ds
      then Fin (of_nat (foldl (\<lambda>acc c. b * acc + the (radix_digit b c)) 0 ds))
      else NaN)"


text \<open>The exponent part: empty, or \<^verbatim>\<open>e\<close> or \<^verbatim>\<open>E\<close>, an optional sign and digits.\<close>

definition exponent_part :: "string \<Rightarrow> int option" where
  "exponent_part s =
     (case s of
        [] \<Rightarrow> Some 0
      | c # r \<Rightarrow>
          if c = CHR ''e'' \<or> c = CHR ''E'' then
            (case r of
               [] \<Rightarrow> None
             | sg # ds \<Rightarrow>
                 if sg = CHR ''-'' then
                   (if ds \<noteq> [] \<and> list_all is_digit ds then Some (- int (dec_value ds)) else None)
                 else if sg = CHR ''+'' then
                   (if ds \<noteq> [] \<and> list_all is_digit ds then Some (int (dec_value ds)) else None)
                 else
                   (if list_all is_digit r then Some (int (dec_value r)) else None))
          else None)"

text \<open>An unsigned decimal literal: digits, optionally a point and digits, optionally an
  exponent; at least one digit before or after the point.\<close>

definition unsigned_decimal :: "string \<Rightarrow> rat option" where
  "unsigned_decimal s =
     (let ip = takeWhile is_digit s;
          r1 = dropWhile is_digit s;
          fp = (case r1 of [] \<Rightarrow> [] | c # r \<Rightarrow> if c = CHR ''.'' then takeWhile is_digit r else []);
          r2 = (case r1 of [] \<Rightarrow> [] | c # r \<Rightarrow> if c = CHR ''.'' then dropWhile is_digit r else r1)
      in if ip = [] \<and> fp = [] then None
         else
           (case exponent_part r2 of
              None \<Rightarrow> None
            | Some e \<Rightarrow>
                Some ((of_nat (dec_value (ip @ fp)) / 10 ^ length fp) *
                      (if e < 0 then 1 / 10 ^ nat (- e) else 10 ^ nat e))))"

definition unsigned_literal :: "string \<Rightarrow> bool \<Rightarrow> jsnum" where
  "unsigned_literal s negative =
     (if s = ''Infinity'' then (if negative then NegInf else PosInf)
      else case unsigned_decimal s of
             None \<Rightarrow> NaN
           | Some v \<Rightarrow> Fin (if negative then - v else v))"

definition StringToNumber :: "string \<Rightarrow> jsnum" where
  "StringToNumber s =
     (let t = trim s in
      case t of
        [] \<Rightarrow> Fin 0
      | c # r \<Rightarrow>
          if c = CHR ''0'' \<and> r \<noteq> [] \<and> (hd r = CHR ''x'' \<or> hd r = CHR ''X'') then radix_literal 16 (tl r)
          else if c = CHR ''0'' \<and> r \<noteq> [] \<and> (hd r = CHR ''o'' \<or> hd r = CHR ''O'') then radix_literal 8 (tl r)
          else if c = CHR ''0'' \<and> r \<noteq> [] \<and> (hd r = CHR ''b'' \<or> hd r = CHR ''B'') then radix_literal 2 (tl r)
          else if c = CHR ''-'' then unsigned_literal r True
          else if c = CHR ''+'' then unsigned_literal r False
          else unsigned_literal t False)"

text \<open>\<^verbatim>\<open>Number(v)\<close> and \<^verbatim>\<open>isNaN(n)\<close>.\<close>

fun ToNumber :: "jsval \<Rightarrow> jsnum" where
  "ToNumber Undefined = NaN"
| "ToNumber Null = Fin 0"
| "ToNumber (Bool b) = (if b then Fin 1 else Fin 0)"
| "ToNumber (Num n) = n"
| "ToNumber (Str s) = StringToNumber s"
| "ToNumber (DateObj InvalidDate) = NaN"
| "ToNumber (DateObj (TimeValue t)) = Fin (of_int t)"

fun isNaN :: "jsnum \<Rightarrow> bool" where
  "isNaN NaN = True"
| "isNaN _ = False"

section \<open>Calendar dates\<close>

text \<open>
  Day numbers count days from 1970-01-01. \<open>days_from_year\<close> and \<open>make_day\<close> are
  ECMAScript's DayFromYear and MakeDay for a month in 1..12; \<open>civil_from_days\<close> is the
  inverse (year, month 1..12, day of the month) of the proleptic Gregorian calendar.
\<close>

definition days_from_year :: "int \<Rightarrow> int" where
  "days_from_year y =
     365 * (y - 1970) + (y - 1969) div 4 - (y - 1901) div 100 + (y - 1601) div 400"

definition is_leap :: "int \<Rightarrow> bool" where
  "is_leap y = (y mod 4 = 0 \<and> (y mod 100 \<noteq> 0 \<or> y mod 400 = 0))"

definition days_in_month :: "int \<Rightarrow> int \<Rightarrow> int" where
  "days_in_month y m =
     (if m = 2 then (if is_leap y then 29 else 28)
      else if m = 4 \<or> m = 6 \<or> m = 9 \<or> m = 11 then 30 else 31)"

definition days_before_month :: "int \<Rightarrow> int \<Rightarrow> int" where
  "days_before_month y m =
     (if m = 1 then 0 else if m = 2 then 31
      else (if is_leap y then 1 else 0) +
        (if m = 3 then 59 else if m = 4 then 90 else if m = 5 then 120
         else if m = 6 then 151 else if m = 7 then 181 else if m = 8 then 212
         else if m = 9 then 243 else if m = 10 then 273 else if m = 11 then 304
         else 334))"

definition make_day :: "int \<Rightarrow> int \<Rightarrow> int \<Rightarrow> int" where
  "make_day y m d = days_from_year y + days_before_month y m + d - 1"

definition valid_date :: "int \<Rightarrow> int \<Rightarrow> int \<Rightarrow> bool" where
  "valid_date y m d = (1 \<le> m \<and> m \<le> 12 \<and> 1 \<le> d \<and> d \<le> days_in_month y m)"

definition civil_from_days :: "int \<Rightarrow> int \<times> int \<times> int" where
  "civil_from_days z0 =
     (let z = z0 + 719468;
          era = z div 146097;
          doe = z - era * 146097;
          yoe = (doe - doe div 1460 + doe div 36524 - doe div 146096) div 365;
          doy = doe - (365 * yoe + yoe div 4 - yoe div 100);
          mp = (5 * doy + 2) div 153;
          d = doy - (153 * mp + 2) div 5 + 1;
          m = (if mp < 10 then mp + 3 else mp - 9);
          y = yoe + era * 400 + (if m \<le> 2 then 1 else 0)
      in (y, m, d))"

definition ms_per_day :: int where
  "ms_per_day = 86400000"

text \<open>
  \<^verbatim>\<open>date.toISOString()\<close>: \<^verbatim>\<open>YYYY-MM-DDTHH:mm:ss.sssZ\<close> in UTC, the year with a sign
  and six digits outside 0..9999; a RangeError on an invalid date.
\<close>

definition iso_year :: "int \<Rightarrow> string" where
  "iso_year y =
     (if 0 \<le> y \<and> y \<le> 9999 then padStart 4 (CHR ''0'') (show_nat (nat y))
      else (if y < 0 then CHR ''-'' else CHR ''+'') # padStart 6 (CHR ''0'') (show_nat (nat \<bar>y\<bar>)))"

definition pad2 :: "int \<Rightarrow> string" where
  "pad2 n = padStart 2 (CHR ''0'') (show_nat (nat n))"

definition pad3 :: "int \<Rightarrow> string" where
  "pad3 n = padStart 3 (CHR ''0'') (show_nat (nat n))"

definition toISOString :: "jsdate \<Rightarrow> error + string" where
  "toISOString dt =
     (case dt of
        InvalidDate \<Rightarrow> Inl RangeError
      | TimeValue t \<Rightarrow>
          (case civil_from_days (t div ms_per_day) of
             (y, m, d) \<Rightarrow>
               let r = t mod ms_per_day
               in Inr (iso_year y @ ''-'' @ pad2 m @ ''-'' @ pad2 d @ ''T'' @
                       pad2 (r div 3600000) @ '':'' @ pad2 (r mod 3600000 div 60000) @ '':'' @
                       pad2 (r mod 60000 div 1000) @ ''.'' @ pad3 (r mod 1000) @ ''Z'')))"

text \<open>
  \<^verbatim>\<open>new Date(s)\<close> for the date-only form \<^verbatim>\<open>YYYY-MM-DD\<close> of a calendar date, which
  ECMAScript reads as midnight UTC. The empty string gives an invalid date. Every other
  string is left to the implementation by ECMAScript and is outside this model
  (\<open>None\<close>).
\<close>

definition parse_ymd :: "string \<Rightarrow> (int \<times> int \<times> int) option" where
  "parse_ymd s =
     (if length s = 10 \<and> list_all is_digit (take 4 s) \<and> s ! 4 = CHR ''-''
         \<and> list_all is_digit (take 2 (drop 5 s)) \<and> s ! 7 = CHR ''-''
         \<and> list_all is_digit (drop 8 s)
      then Some (int (dec_value (take 4 s)), int (dec_value (take 2 (drop 5 s))),
                 int (dec_value (drop 8 s)))
      else None)"

definition new_Date :: "string \<Rightarrow> jsdate option" where
  "new_Date s =
     (if s = [] then Some InvalidDate
      else case parse_ymd s of
             None \<Rightarrow> None
           | Some (y, m, d) \<Rightarrow>
               if valid_date y m d then Some (TimeValue (make_day y m d * ms_per_day))
               else None)"

text \<open>\<^verbatim>\<open>a >= b\<close> on two dates compares the time values; with NaN it is false.\<close>

fun date_ge :: "jsdate \<Rightarrow> jsdate \<Rightarrow> bool" where
  "date_ge (TimeValue a) (TimeValue b) = (a \<ge> b)"
| "date_ge _ _ = False"

section \<open>The row parser: numbers\<close>

text \<open>
  The arrow function \<^verbatim>\<open>parseNum\<close> of \<^verbatim>\<open>parseInputSheet\<close>; \<open>None\<close> is its
  \<^verbatim>\<open>null\<close>.
\<close>

definition parseNum :: "jsval \<Rightarrow> jsnum option" where
  "parseNum val =
     (if val = Null \<or> val = Undefined \<or> val = Str [] then None
      else let num = ToNumber val in if isNaN num then None else Some num)"

text \<open>\<^verbatim>\<open>row[i]\<close>: reading past the end of an array gives \<^verbatim>\<open>undefined\<close>.\<close>

definition cell :: "jsval list \<Rightarrow> nat \<Rightarrow> jsval" where
  "cell row i = (if i < length row then row ! i else Undefined)"

section \<open>Records of the data model\<close>

text \<open>
  One day of the log. The row parser stores whatever the date cell holds (\<open>'d\<close> is
  \<open>jsval\<close> there) and numbers that may be infinite (\<open>'n\<close> is \<open>jsnum\<close>); the metrics
  work on entries whose dates are strings and whose numbers are finite.
\<close>

record ('d, 'n) entry =
  date :: 'd
  weight :: "'n option"
  waist :: "'n option"
  steps :: "'n option"
  calories_intake :: "'n option"
  protein :: "'n option"
  fat :: "'n option"
  carbs :: "'n option"
  notes_of :: jsval

text \<open>\<^verbatim>\<open>settings.goals\<close>; a field the object lacks is \<open>None\<close>.\<close>

record goals =
  g_calories :: "rat option"
  g_calories_before_0120 :: "rat option"
  g_protein :: "rat option"
  g_fat :: "rat option"
  g_carbs :: "rat option"
  g_pfc_ratio :: "string option"

record settings =
  target_weight :: rat
  target_steps :: "rat option"
  start_weight :: rat
  start_date :: string
  basal_metabolism :: "rat option"
  height :: "rat option"
  age :: "rat option"
  gender :: string
  goals :: "goals option"

definition getDefaultSettings :: settings where
  "getDefaultSettings =
     \<lparr> target_weight = 90, target_steps = Some 10000, start_weight = 119.2,
       start_date = ''2026-01-08'', basal_metabolism = Some 2200,
       height = Some 184, age = Some 30, gender = ''male'',
       goals = Some \<lparr> g_calories = Some 2700, g_calories_before_0120 = Some 2600,
                      g_protein = Some 195, g_fat = Some 58, g_carbs = Some 325,
                      g_pfc_ratio = Some ''3:2:5'' \<rparr> \<rparr>"

section \<open>The row parser: dates and rows\<close>

text \<open>
  The regular expression \<^verbatim>\<open>/Date\((\d+),(\d+),(\d+)\)/\<close>. It is not anchored:
  \<open>match_Date\<close> finds the leftmost position where \<open>match_Date_here\<close> succeeds. The
  digit runs are maximal, since each must be followed by a character that is not a digit.
\<close>

definition match_Date_here :: "string \<Rightarrow> (string \<times> string \<times> string) option" where
  "match_Date_here s =
     (if \<not> startsWith s ''Date('' then None
      else
        let r0 = drop 5 s; y = takeWhile is_digit r0; r1 = dropWhile is_digit r0
        in if y = [] then None
           else case r1 of
             [] \<Rightarrow> None
           | c1 # r2 \<Rightarrow>
               if c1 \<noteq> CHR '','' then None
               else
                 let m = takeWhile is_digit r2; r3 = dropWhile is_digit r2
                 in if m = [] then None
                    else case r3 of
                      [] \<Rightarrow> None
                    | c2 # r4 \<Rightarrow>
                        if c2 \<noteq> CHR '','' then None
                        else
                          let d = takeWhile is_digit r4; r5 = dropWhile is_digit r4
                          in if d = [] then None
                             else case r5 of
                               [] \<Rightarrow> None
                             | c3 # r6 \<Rightarrow> if c3 = CHR '')'' then Some (y, m, d) else None)"

fun match_Date :: "string \<Rightarrow> (string \<times> string \<times> string) option" where
  "match_Date [] = None"
| "match_Date (c # cs) =
     (case match_Date_here (c # cs) of
        Some r \<Rightarrow> Some r
      | None \<Rightarrow> match_Date cs)"

text \<open>\<^verbatim>\<open>/^\d{4}\/\d{1,2}\/\d{1,2}$/\<close> and \<^verbatim>\<open>/^\d{1,2}\/\d{1,2}$/\<close>.\<close>

definition one_or_two_digits :: "string \<Rightarrow> bool" where
  "one_or_two_digits s = ((length s = 1 \<or> length s = 2) \<and> list_all is_digit s)"

definition match_month_day :: "string \<Rightarrow> bool" where
  "match_month_day s =
     (let m = takeWhile is_digit s; r = dropWhile is_digit s
      in (length m = 1 \<or> length m = 2) \<and>
         (case r of [] \<Rightarrow> False | c # d \<Rightarrow> c = CHR ''/'' \<and> one_or_two_digits d))"

definition match_year_month_day :: "string \<Rightarrow> bool" where
  "match_year_month_day s =
     (let y = takeWhile is_digit s; r = dropWhile is_digit s
      in length y = 4 \<and> (case r of [] \<Rightarrow> False | c # md \<Rightarrow> c = CHR ''/'' \<and> match_month_day md))"

text \<open>
  The date normalisation of \<^verbatim>\<open>parseInputSheet\<close> (the chain of tests on \<^verbatim>\<open>dateStr\<close>).
  A cell that is neither a string of one of the three shapes nor a \<^verbatim>\<open>Date\<close> is kept
  as it is. \<^verbatim>\<open>Number(match[2]) + 1\<close> is computed exactly.
\<close>

definition normalizeDate :: "jsval \<Rightarrow> error + jsval" where
  "normalizeDate dateStr =
     (case dateStr of
        Str s \<Rightarrow>
          if startsWith s ''Date('' then
            (case match_Date s of
               Some (y, m, d) \<Rightarrow>
                 Inr (Str (y @ ''-'' @ padStart 2 (CHR ''0'') (show_nat (dec_value m + 1)) @ ''-'' @
                           padStart 2 (CHR ''0'') d))
             | None \<Rightarrow> Inr (Str s))
          else if match_year_month_day s then
            (case split_on (CHR ''/'') s of
               y # m # d # _ \<Rightarrow>
                 Inr (Str (y @ ''-'' @ padStart 2 (CHR ''0'') m @ ''-'' @ padStart 2 (CHR ''0'') d))
             | _ \<Rightarrow> Inl TypeError)
          else if match_month_day s then
            (case split_on (CHR ''/'') s of
               m # d # _ \<Rightarrow>
                 Inr (Str (''2026-'' @ padStart 2 (CHR ''0'') m @ ''-'' @ padStart 2 (CHR ''0'') d))
             | _ \<Rightarrow> Inl TypeError)
          else Inr (Str s)
      | DateObj dt \<Rightarrow>
          (case toISOString dt of
             Inl e \<Rightarrow> Inl e
           | Inr isoStr \<Rightarrow> Inr (Str (hd (split_on (CHR ''T'') isoStr))))
      | v \<Rightarrow> Inr v)"

text \<open>
  The older copy of the module (\<^verbatim>\<open>src/js/data.js\<close>) has the same chain without the
  test for a full slash-delimited date.
\<close>

definition normalizeDate_older :: "jsval \<Rightarrow> error + jsval" where
  "normalizeDate_older dateStr =
     (case dateStr of
        Str s \<Rightarrow>
          if startsWith s ''Date('' then
            (case match_Date s of
               Some (y, m, d) \<Rightarrow>
                 Inr (Str (y @ ''-'' @ padStart 2 (CHR ''0'') (show_nat (dec_value m + 1)) @ ''-'' @
                           padStart 2 (CHR ''0'') d))
             | None \<Rightarrow> Inr (Str s))
          else if match_month_day s then
            (case split_on (CHR ''/'') s of
               m # d # _ \<Rightarrow>
                 Inr (Str (''2026-'' @ padStart 2 (CHR ''0'') m @ ''-'' @ padStart 2 (CHR ''0'') d))
             | _ \<Rightarrow> Inl TypeError)
          else Inr (Str s)
      | DateObj dt \<Rightarrow>
          (case toISOString dt of
             Inl e \<Rightarrow> Inl e
           | Inr isoStr \<Rightarrow> Inr (Str (hd (split_on (CHR ''T'') isoStr))))
      | v \<Rightarrow> Inr v)"

text \<open>A string that none of the three patterns matches: it does not start with
  \<^verbatim>\<open>Date(\<close>, and its leading digits are not followed by a slash.\<close>

definition canonical_shape :: "string \<Rightarrow> bool" where
  "canonical_shape r =
     (\<not> startsWith r ''Date('' \<and>
      (case dropWhile is_digit r of [] \<Rightarrow> True | c # _ \<Rightarrow> c \<noteq> CHR ''/''))"

text \<open>One iteration of the loop of \<^verbatim>\<open>parseInputSheet\<close>: \<open>Inr None\<close> is
  \<^verbatim>\<open>continue\<close>.\<close>

definition parse_row :: "jsval list \<Rightarrow> error + (jsval, jsnum) entry option" where
  "parse_row row =
     (if \<not> truthy (cell row 0) then Inr None
      else case normalizeDate (cell row 0) of
        Inl e \<Rightarrow> Inl e
      | Inr dateStr \<Rightarrow>
          Inr (Some \<lparr> date = dateStr,
                      weight = parseNum (cell row 1),
                      waist = parseNum (cell row 2),
                      steps = parseNum (cell row 3),
                      calories_intake = parseNum (cell row 4),
                      protein = None, fat = None, carbs = None,
                      notes_of = (if truthy (cell row 5) then cell row 5 else Str []) \<rparr>))"

fun parse_rows :: "jsval list list \<Rightarrow> (jsval, jsnum) entry list \<Rightarrow> error + (jsval, jsnum) entry list" where
  "parse_rows [] acc = Inr acc"
| "parse_rows (row # rest) acc =
     (case parse_row row of
        Inl e \<Rightarrow> Inl e
      | Inr None \<Rightarrow> parse_rows rest acc
      | Inr (Some e) \<Rightarrow> parse_rows rest (acc @ [e]))"

text \<open>\<^verbatim>\<open>parseInputSheet(rows)\<close>: row 0 is the header.\<close>

definition parseInputSheet :: "jsval list list \<Rightarrow> error + (jsval, jsnum) entry list" where
  "parseInputSheet rows = (if length rows < 2 then Inr [] else parse_rows (drop 1 rows) [])"

section \<open>PFC evaluation\<close>

text \<open>The labels of \<^verbatim>\<open>evaluatePFC\<close> (UTF-8): protein deficit, fat excess, carbohydrate
  excess, the text of the good verdict, and the separator of \<^verbatim>\<open>join\<close>.\<close>

definition label_P_deficit :: string where
  "label_P_deficit = [CHR 0x50, CHR 0xE4, CHR 0xB8, CHR 0x8D, CHR 0xE8, CHR 0xB6, CHR 0xB3]"

definition label_F_excess :: string where
  "label_F_excess = [CHR 0x46, CHR 0xE9, CHR 0x81, CHR 0x8E, CHR 0xE5, CHR 0xA4, CHR 0x9A]"

definition label_C_excess :: string where
  "label_C_excess = [CHR 0x43, CHR 0xE9, CHR 0x81, CHR 0x8E, CHR 0xE5, CHR 0xA4, CHR 0x9A]"

definition text_ideal :: string where
  "text_ideal = [CHR 0xE7, CHR 0x90, CHR 0x86, CHR 0xE6, CHR 0x83, CHR 0xB3, CHR 0xE7, CHR 0x9A, CHR 0x84]"

definition middle_dot :: string where
  "middle_dot = [CHR 0xE3, CHR 0x83, CHR 0xBB]"

record verdict =
  v_status :: string
  v_text :: string

text \<open>The three \<^verbatim>\<open>issues.push\<close> statements, in the source's order.\<close>

definition pfc_issues :: "rat option \<Rightarrow> rat option \<Rightarrow> rat option \<Rightarrow> string list" where
  "pfc_issues proteinDiff fatDiff carbsDiff =
     (if nan_lt proteinDiff (- 20) then [label_P_deficit] else []) @
     (if nan_gt fatDiff 20 then [label_F_excess] else []) @
     (if nan_gt carbsDiff 50 then [label_C_excess] else [])"

text \<open>
  \<^verbatim>\<open>evaluatePFC(log, goals)\<close>. The guard is on truthiness. After it the three gram
  counts are non-zero numbers; a goal the goals object lacks makes the difference NaN.
\<close>

definition evaluatePFC :: "('d, rat) entry \<Rightarrow> goals option \<Rightarrow> verdict option" where
  "evaluatePFC l gs =
     (if \<not> truthy_num (protein l) \<or> \<not> truthy_num (fat l) \<or> \<not> truthy_num (carbs l)
         \<or> gs = None
      then None
      else
        let g = the gs;
            proteinDiff = map_option (\<lambda>t. the (protein l) - t) (g_protein g);
            fatDiff = map_option (\<lambda>t. the (fat l) - t) (g_fat g);
            carbsDiff = map_option (\<lambda>t. the (carbs l) - t) (g_carbs g);
            issues = pfc_issues proteinDiff fatDiff carbsDiff
        in if length issues = 0 \<and> nan_abs_le proteinDiff 20 \<and> nan_abs_le fatDiff 15
           then Some \<lparr> v_status = ''good'', v_text = text_ideal \<rparr>
           else if length issues > 0
           then Some \<lparr> v_status = ''warning'', v_text = join middle_dot issues \<rparr>
           else None)"

text \<open>A log entry that carries only the three gram counts.\<close>

definition grams :: "rat option \<Rightarrow> rat option \<Rightarrow> rat option \<Rightarrow> (string, rat) entry" where
  "grams p f c =
     \<lparr> date = [], weight = None, waist = None, steps = None, calories_intake = None,
       protein = p, fat = f, carbs = c, notes_of = Str [] \<rparr>"

definition macro_goals :: "rat \<Rightarrow> rat \<Rightarrow> rat \<Rightarrow> goals" where
  "macro_goals p f c =
     \<lparr> g_calories = None, g_calories_before_0120 = None,
       g_protein = Some p, g_fat = Some f, g_carbs = Some c, g_pfc_ratio = None \<rparr>"

section \<open>Energy expenditure and calorie target\<close>


text \<open>
  \<^verbatim>\<open>getCalorieTargetForDate(dateStr, settings)\<close>. \<^verbatim>\<open>settings.goals || {}\<close> makes
  every goal of an absent goals object undefined; \<^verbatim>\<open>goals.calories || 2700\<close> and
  \<^verbatim>\<open>goals.calories_before_0120 || 2600\<close> fall back when the goal is absent or 0. The
  result is \<open>None\<close> only for a date string outside the modelled date format.
\<close>

definition goal_field :: "(goals \<Rightarrow> 'a option) \<Rightarrow> settings \<Rightarrow> 'a option" where
  "goal_field f st = (case goals st of None \<Rightarrow> None | Some g \<Rightarrow> f g)"

definition getCalorieTargetForDate :: "string \<Rightarrow> settings \<Rightarrow> rat option" where
  "getCalorieTargetForDate dateStr st =
     (case new_Date dateStr of
        None \<Rightarrow> None
      | Some dt \<Rightarrow>
          (case new_Date ''2026-01-20'' of
             None \<Rightarrow> None
           | Some changeDate \<Rightarrow>
               if date_ge dt changeDate
               then Some (or_default (goal_field g_calories st) 2700)
               else Some (or_default (goal_field g_calories_before_0120 st) 2600)))"

section \<open>Moving average\<close>










section \<open>Weekly statistics\<close>

record meal_item =
  m_name :: string
  m_calories :: "rat option"
  m_protein :: "rat option"
  m_fat :: "rat option"
  m_carbs :: "rat option"

text \<open>The meals of a day by meal type, and the meals by date; a missing key is \<open>None\<close>.\<close>

type_synonym day_meals = "string \<Rightarrow> meal_item list option"

type_synonym meals_by_date = "string \<Rightarrow> day_meals option"










definition fallback_goals :: goals where
  "fallback_goals =
     \<lparr> g_calories = Some 2600, g_calories_before_0120 = None,
       g_protein = Some 195, g_fat = Some 58, g_carbs = Some 325, g_pfc_ratio = None \<rparr>"







section \<open>Weight change\<close>







section \<open>Completeness check\<close>

text \<open>
  \<^verbatim>\<open>App.checkDataCompleteness(logs, meals)\<close>. The current date \<^verbatim>\<open>dayjs()\<close> is the
  parameter \<open>today\<close>, a day number; \<^verbatim>\<open>today.subtract(i, 'day')\<close> is \<open>today - i\<close> and
  \<^verbatim>\<open>format('YYYY-MM-DD')\<close> is \<open>format_date\<close>. A warning keeps the day it is about (the
  source stores its display label), the date string, the type, and for the type
  \<^verbatim>\<open>missing_fields\<close> the list \<^verbatim>\<open>missingFields\<close> that the message joins. The function
  returns the list it hands to \<^verbatim>\<open>displayWarnings\<close>.
\<close>

definition format_date :: "int \<Rightarrow> string" where
  "format_date day =
     (case civil_from_days day of
        (y, m, d) \<Rightarrow> padStart 4 (CHR ''0'') (show_int y) @ ''-'' @ pad2 m @ ''-'' @ pad2 d)"

datatype warning_type = no_data | missing_meals | missing_fields

datatype field_label = label_weight | label_waist | label_calories | label_steps

record warning =
  w_day :: int
  w_dateStr :: string
  w_type :: warning_type
  w_missing :: "field_label list"

definition missing_of ::
  "nat \<Rightarrow> (string, rat) entry \<Rightarrow> field_label list" where
  "missing_of i l =
     (if i = 0 then
        (if \<not> truthy_num (weight l) then [label_weight] else []) @
        (if \<not> truthy_num (waist l) then [label_waist] else [])
      else
        (if \<not> truthy_num (weight l) then [label_weight] else []) @
        (if \<not> truthy_num (waist l) then [label_waist] else []) @
        (if \<not> truthy_num (calories_intake l) then [label_calories] else []) @
        (if steps l = None then [label_steps] else []))"

text \<open>One iteration of the loop: the warnings it pushes, in order.\<close>

definition check_day ::
  "int \<Rightarrow> (string, rat) entry list \<Rightarrow> meals_by_date option \<Rightarrow> nat \<Rightarrow> warning list" where
  "check_day today logs meals i =
     (let checkDate = today - int i;
          dateStr = format_date checkDate;
          hasMeals = (case meals of None \<Rightarrow> False | Some ms \<Rightarrow> ms dateStr \<noteq> None)
      in case find (\<lambda>l. date l = dateStr) logs of
           None \<Rightarrow>
             (if i > 0
              then [\<lparr> w_day = checkDate, w_dateStr = dateStr, w_type = no_data, w_missing = [] \<rparr>]
              else [])
         | Some l \<Rightarrow>
             (if i \<noteq> 0 \<and> truthy_num (calories_intake l) \<and> \<not> hasMeals
              then [\<lparr> w_day = checkDate, w_dateStr = dateStr, w_type = missing_meals, w_missing = [] \<rparr>]
              else []) @
             (if length (missing_of i l) > 0
              then [\<lparr> w_day = checkDate, w_dateStr = dateStr, w_type = missing_fields,
                      w_missing = missing_of i l \<rparr>]
              else []))"

function check_loop ::
  "int \<Rightarrow> (string, rat) entry list \<Rightarrow> meals_by_date option \<Rightarrow> nat \<Rightarrow> warning list \<Rightarrow> warning list" where
  "check_loop today logs meals i warnings =
     (if i < 3 then check_loop today logs meals (Suc i) (warnings @ check_day today logs meals i)
      else warnings)"
  by pat_completeness auto
termination
  by (relation "measure (\<lambda>(today, logs, meals, i, warnings). 3 - i)") auto

declare check_loop.simps [simp del]

definition checkDataCompleteness ::
  "int \<Rightarrow> (string, rat) entry list \<Rightarrow> meals_by_date option \<Rightarrow> warning list" where
  "checkDataCompleteness today logs meals = check_loop today logs meals 0 []"

section \<open>Properties of the PFC evaluation\<close>

text \<open>
  C10. A log in which protein, fat or carbs is the present value 0, and likewise a call
  without goals, gets no verdict: \<^verbatim>\<open>evaluatePFC\<close> returns null, exactly as for a
  missing gram count.
\<close>

theorem evaluatePFC_zero_is_absent:
  "protein l = Some 0 \<or> fat l = Some 0 \<or> carbs l = Some 0 \<or> gs = None
   \<Longrightarrow> evaluatePFC l gs = None"
  by (auto simp: evaluatePFC_def)

theorem evaluatePFC_zero_is_absent_witness:
  "evaluatePFC (grams (Some 0) (Some 60) (Some 300)) (Some (macro_goals 195 58 325)) = None
   \<and> evaluatePFC (grams (Some 190) (Some 0) (Some 300)) (Some (macro_goals 195 58 325)) = None
   \<and> evaluatePFC (grams (Some 190) (Some 60) (Some 0)) (Some (macro_goals 195 58 325)) = None
   \<and> evaluatePFC (grams (Some 190) (Some 60) (Some 300)) None = None
   \<and> evaluatePFC (grams None (Some 60) (Some 300)) (Some (macro_goals 195 58 325)) = None"
  using evaluatePFC_zero_is_absent [of "grams (Some 0) (Some 60) (Some 300)" "Some (macro_goals 195 58 325)"]
    evaluatePFC_zero_is_absent [of "grams (Some 190) (Some 0) (Some 300)" "Some (macro_goals 195 58 325)"]
    evaluatePFC_zero_is_absent [of "grams (Some 190) (Some 60) (Some 0)" "Some (macro_goals 195 58 325)"]
    evaluatePFC_zero_is_absent [of "grams (Some 190) (Some 60) (Some 300)" None]
  by (simp add: grams_def evaluatePFC_def)




section \<open>Properties of the energy expenditure\<close>




section \<open>Properties of the row parser\<close>

subsection \<open>Digits and strings\<close>

lemma is_digit_not_special:
  "is_digit c \<Longrightarrow> c \<noteq> CHR ''/'' \<and> c \<noteq> CHR ''-'' \<and> c \<noteq> CHR ''+'' \<and> c \<noteq> CHR ''T'' \<and> c \<noteq> CHR ''D''
     \<and> \<not> is_space c"
  by (auto simp: is_digit_def is_space_def)

lemma is_digit_digit_char: "k < 10 \<Longrightarrow> is_digit (digit_char k)"
  by (simp add: is_digit_def digit_char_def)

lemma show_nat_digits: "list_all is_digit (show_nat n)"
proof (induction n rule: show_nat.induct)
  case (1 n)
  show ?case
  proof (cases "n < 10")
    case True
    then show ?thesis by (simp add: show_nat.simps [of n] is_digit_digit_char)
  next
    case False
    with 1 show ?thesis by (simp add: show_nat.simps [of n] is_digit_digit_char)
  qed
qed

lemma show_nat_nonempty: "show_nat n \<noteq> []"
  by (simp add: show_nat.simps [of n])

lemma padStart_digits: "list_all is_digit s \<Longrightarrow> list_all is_digit (padStart n (CHR ''0'') s)"
  by (auto simp: padStart_def list_all_iff is_digit_def)

lemma padStart_nonempty: "s \<noteq> [] \<Longrightarrow> padStart n c s \<noteq> []"
  by (simp add: padStart_def)

lemma split_on_nonempty: "split_on c s \<noteq> []"
  by (induction s) (auto split: list.splits)

lemma hd_split_on: "hd (split_on c s) = takeWhile (\<lambda>x. x \<noteq> c) s"
  by (induction s) (auto split: list.splits simp: split_on_nonempty)

lemma split_on_prefix:
  "c \<notin> set a \<Longrightarrow> split_on c (a @ c # b) = a # split_on c b"
  by (induction a) (auto split: list.splits)

lemma canonical_shape_no_slash_match:
  assumes "case dropWhile is_digit r of [] \<Rightarrow> True | c # _ \<Rightarrow> c \<noteq> CHR ''/''"
  shows "\<not> match_year_month_day r" and "\<not> match_month_day r"
proof -
  show "\<not> match_year_month_day r"
  proof (cases "dropWhile is_digit r")
    case Nil
    show ?thesis unfolding match_year_month_day_def Let_def Nil by simp
  next
    case (Cons c w)
    with assms show ?thesis by (simp add: match_year_month_day_def Let_def)
  qed
  show "\<not> match_month_day r"
  proof (cases "dropWhile is_digit r")
    case Nil
    show ?thesis unfolding match_month_day_def Let_def Nil by simp
  next
    case (Cons c w)
    with assms show ?thesis by (simp add: match_month_day_def Let_def)
  qed
qed

lemma canonical_shape_fixed:
  assumes "canonical_shape r"
  shows "normalizeDate (Str r) = Inr (Str r)"
proof -
  from assms have a: "\<not> startsWith r ''Date(''"
    and b: "case dropWhile is_digit r of [] \<Rightarrow> True | c # _ \<Rightarrow> c \<noteq> CHR ''/''"
    by (simp_all add: canonical_shape_def)
  from a canonical_shape_no_slash_match [OF b] show ?thesis
    by (simp add: normalizeDate_def)
qed

lemma digits_dash_shape:
  assumes "list_all is_digit y"
  shows "canonical_shape (y @ CHR ''-'' # rest)"
proof -
  have d: "dropWhile is_digit (y @ CHR ''-'' # rest) = CHR ''-'' # rest"
    using assms by (simp add: dropWhile_append2 list_all_iff is_digit_def)
  have "\<not> startsWith (y @ CHR ''-'' # rest) ''Date(''"
    using assms is_digit_not_special by (cases y) (auto simp: startsWith_def)
  with d show ?thesis by (simp add: canonical_shape_def)
qed

lemma sign_shape:
  assumes "sg = CHR ''-'' \<or> sg = CHR ''+''"
  shows "canonical_shape (sg # w)"
  using assms by (auto simp: canonical_shape_def startsWith_def is_digit_def)


lemma takeWhile_all: "list_all P (takeWhile P xs)"
  by (induction xs) auto

lemma digits_no_slash: "list_all is_digit a \<Longrightarrow> CHR ''/'' \<notin> set a"
  using is_digit_not_special by (auto simp: list_all_iff)

lemma match_Date_here_digits:
  assumes "match_Date_here s = Some (y, m, d)"
  shows "list_all is_digit y"
proof -
  from assms have "y = takeWhile is_digit (drop 5 s)"
    by (simp add: match_Date_here_def Let_def split: if_splits list.splits)
  then show ?thesis by (simp add: takeWhile_all)
qed

lemma match_Date_digits: "match_Date s = Some (y, m, d) \<Longrightarrow> list_all is_digit y"
  by (induction s) (auto split: option.splits dest: match_Date_here_digits)

lemma match_month_day_split:
  assumes "match_month_day s"
  shows "\<exists>m d r. split_on (CHR ''/'') s = m # d # r \<and> list_all is_digit m"
proof -
  let ?m = "takeWhile is_digit s"
  from assms obtain d where r: "dropWhile is_digit s = CHR ''/'' # d"
    by (auto simp: match_month_day_def Let_def split: list.splits)
  have "s = ?m @ dropWhile is_digit s" by simp
  with r have s: "s = ?m @ CHR ''/'' # d" by simp
  have m: "list_all is_digit ?m" by (rule takeWhile_all)
  have "split_on (CHR ''/'') (?m @ CHR ''/'' # d) = ?m # split_on (CHR ''/'') d"
    by (rule split_on_prefix) (rule digits_no_slash [OF m])
  with s have e: "split_on (CHR ''/'') s = ?m # split_on (CHR ''/'') d" by simp
  obtain d' r' where "split_on (CHR ''/'') d = d' # r'"
    using split_on_nonempty [of "CHR ''/''" d] by (cases "split_on (CHR ''/'') d") auto
  with e m show ?thesis by auto
qed

lemma match_year_month_day_split:
  assumes "match_year_month_day s"
  shows "\<exists>y m d r. split_on (CHR ''/'') s = y # m # d # r \<and> list_all is_digit y"
proof -
  let ?y = "takeWhile is_digit s"
  from assms obtain md where r: "dropWhile is_digit s = CHR ''/'' # md" and md: "match_month_day md"
    by (auto simp: match_year_month_day_def Let_def split: list.splits)
  have "s = ?y @ dropWhile is_digit s" by simp
  with r have s: "s = ?y @ CHR ''/'' # md" by simp
  have y: "list_all is_digit ?y" by (rule takeWhile_all)
  have "split_on (CHR ''/'') (?y @ CHR ''/'' # md) = ?y # split_on (CHR ''/'') md"
    by (rule split_on_prefix) (rule digits_no_slash [OF y])
  with s have e: "split_on (CHR ''/'') s = ?y # split_on (CHR ''/'') md" by simp
  from match_month_day_split [OF md] obtain m d r' where
    "split_on (CHR ''/'') md = m # d # r'" by auto
  with e y show ?thesis by auto
qed

lemma normalizeDate_Str_shape:
  "\<exists>r. normalizeDate (Str s) = Inr (Str r) \<and> (r = s \<or> canonical_shape r)"
proof (cases "startsWith s ''Date(''")
  case True
  show ?thesis
  proof (cases "match_Date s")
    case None
    with True show ?thesis by (simp add: normalizeDate_def)
  next
    case (Some t)
    obtain y m d where t: "t = (y, m, d)" by (cases t) auto
    from Some t have "list_all is_digit y" by (auto dest: match_Date_digits)
    then have "canonical_shape (y @ CHR ''-'' # (padStart 2 (CHR ''0'') (show_nat (dec_value m + 1)) @ ''-'' @
                           padStart 2 (CHR ''0'') d))"
      by (rule digits_dash_shape)
    with True Some t show ?thesis by (simp add: normalizeDate_def)
  qed
next
  case nd: False
  show ?thesis
  proof (cases "match_year_month_day s")
    case True
    from match_year_month_day_split [OF True] obtain y m d r where
      sp: "split_on (CHR ''/'') s = y # m # d # r" and y: "list_all is_digit y" by auto
    from y have "canonical_shape (y @ CHR ''-'' # (padStart 2 (CHR ''0'') m @ ''-'' @ padStart 2 (CHR ''0'') d))"
      by (rule digits_dash_shape)
    with nd True sp show ?thesis by (simp add: normalizeDate_def)
  next
    case nf: False
    show ?thesis
    proof (cases "match_month_day s")
      case True
      from match_month_day_split [OF True] obtain m d r where
        sp: "split_on (CHR ''/'') s = m # d # r" by auto
      have "list_all is_digit ''2026''" by (simp add: is_digit_def)
      then have "canonical_shape (''2026'' @ CHR ''-'' # (padStart 2 (CHR ''0'') m @ ''-'' @ padStart 2 (CHR ''0'') d))"
        by (rule digits_dash_shape)
      with nd nf True sp show ?thesis by (simp add: normalizeDate_def)
    next
      case False
      with nd nf show ?thesis by (simp add: normalizeDate_def)
    qed
  qed
qed

lemma iso_year_shape:
  "(\<exists>ds. iso_year y = ds \<and> ds \<noteq> [] \<and> list_all is_digit ds)
   \<or> (\<exists>sg ds. iso_year y = sg # ds \<and> (sg = CHR ''-'' \<or> sg = CHR ''+''))"
  by (simp add: iso_year_def padStart_digits padStart_nonempty show_nat_digits show_nat_nonempty)

lemma takeWhile_not_T_digits:
  assumes "list_all is_digit ds"
  shows "takeWhile (\<lambda>x. x \<noteq> CHR ''T'') (ds @ CHR ''-'' # w) = ds @ CHR ''-'' # takeWhile (\<lambda>x. x \<noteq> CHR ''T'') w"
proof -
  have "\<And>x. x \<in> set ds \<Longrightarrow> x \<noteq> CHR ''T''"
    using assms is_digit_not_special by (auto simp: list_all_iff)
  then show ?thesis by (simp add: takeWhile_append2)
qed

lemma iso_prefix_shape: "canonical_shape (takeWhile (\<lambda>x. x \<noteq> CHR ''T'') (iso_year y @ CHR ''-'' # w))"
proof -
  from iso_year_shape [of y] show ?thesis
  proof
    assume "\<exists>ds. iso_year y = ds \<and> ds \<noteq> [] \<and> list_all is_digit ds"
    then have d: "list_all is_digit (iso_year y)" by auto
    show ?thesis
      unfolding takeWhile_not_T_digits [OF d] using d by (rule digits_dash_shape)
  next
    assume "\<exists>sg ds. iso_year y = sg # ds \<and> (sg = CHR ''-'' \<or> sg = CHR ''+'')"
    then obtain sg ds where e: "iso_year y = sg # ds" and sg: "sg = CHR ''-'' \<or> sg = CHR ''+''"
      by auto
    from sg have "sg \<noteq> CHR ''T''" by auto
    with e have "takeWhile (\<lambda>x. x \<noteq> CHR ''T'') (iso_year y @ CHR ''-'' # w)
        = sg # takeWhile (\<lambda>x. x \<noteq> CHR ''T'') (ds @ CHR ''-'' # w)" by simp
    with sign_shape [OF sg] show ?thesis by simp
  qed
qed

lemma normalizeDate_DateObj_shape:
  "\<exists>r. normalizeDate (DateObj (TimeValue t)) = Inr (Str r) \<and> canonical_shape r"
proof -
  obtain y m d where c: "civil_from_days (t div ms_per_day) = (y, m, d)"
    by (cases "civil_from_days (t div ms_per_day)") auto
  then obtain w where "toISOString (TimeValue t) = Inr (iso_year y @ CHR ''-'' # w)"
    by (simp add: toISOString_def Let_def)
  then have "normalizeDate (DateObj (TimeValue t)) =
      Inr (Str (takeWhile (\<lambda>x. x \<noteq> CHR ''T'') (iso_year y @ CHR ''-'' # w)))"
    by (simp add: normalizeDate_def hd_split_on)
  with iso_prefix_shape [of y w] show ?thesis by simp
qed

lemma normalizeDate_fixed:
  assumes "normalizeDate x = Inr y"
  shows "normalizeDate y = Inr y"
proof (cases x)
  case (Str s)
  from normalizeDate_Str_shape [of s] obtain r where
    r: "normalizeDate (Str s) = Inr (Str r)" and sh: "r = s \<or> canonical_shape r" by auto
  from r assms Str have y: "y = Str r" by simp
  from sh show ?thesis
  proof
    assume "r = s" with r y show ?thesis by simp
  next
    assume "canonical_shape r" with y show ?thesis by (simp add: canonical_shape_fixed)
  qed
next
  case (DateObj dt)
  show ?thesis
  proof (cases dt)
    case InvalidDate
    with DateObj assms show ?thesis by (simp add: normalizeDate_def toISOString_def)
  next
    case (TimeValue t)
    from normalizeDate_DateObj_shape [of t] obtain r where
      r: "normalizeDate (DateObj (TimeValue t)) = Inr (Str r)" and sh: "canonical_shape r" by auto
    from r assms DateObj TimeValue have "y = Str r" by simp
    with sh show ?thesis by (simp add: canonical_shape_fixed)
  qed
qed (use assms in \<open>auto simp: normalizeDate_def\<close>)

lemma canonical_shape_fixed_older:
  assumes "canonical_shape r"
  shows "normalizeDate_older (Str r) = Inr (Str r)"
proof -
  from assms have a: "\<not> startsWith r ''Date(''"
    and b: "case dropWhile is_digit r of [] \<Rightarrow> True | c # _ \<Rightarrow> c \<noteq> CHR ''/''"
    by (simp_all add: canonical_shape_def)
  from a canonical_shape_no_slash_match(2) [OF b] show ?thesis
    by (simp add: normalizeDate_older_def)
qed

lemma normalizeDate_older_Str_shape:
  "\<exists>r. normalizeDate_older (Str s) = Inr (Str r) \<and> (r = s \<or> canonical_shape r)"
proof (cases "startsWith s ''Date(''")
  case True
  show ?thesis
  proof (cases "match_Date s")
    case None
    with True show ?thesis by (simp add: normalizeDate_older_def)
  next
    case (Some t)
    obtain y m d where t: "t = (y, m, d)" by (cases t) auto
    from Some t have "list_all is_digit y" by (auto dest: match_Date_digits)
    then have "canonical_shape (y @ CHR ''-'' # (padStart 2 (CHR ''0'') (show_nat (dec_value m + 1)) @ ''-'' @
                           padStart 2 (CHR ''0'') d))"
      by (rule digits_dash_shape)
    with True Some t show ?thesis by (simp add: normalizeDate_older_def)
  qed
next
  case nd: False
  show ?thesis
  proof (cases "match_month_day s")
    case True
    from match_month_day_split [OF True] obtain m d r where
      sp: "split_on (CHR ''/'') s = m # d # r" by auto
    have "list_all is_digit ''2026''" by (simp add: is_digit_def)
    then have "canonical_shape (''2026'' @ CHR ''-'' # (padStart 2 (CHR ''0'') m @ ''-'' @ padStart 2 (CHR ''0'') d))"
      by (rule digits_dash_shape)
    with nd True sp show ?thesis by (simp add: normalizeDate_older_def)
  next
    case False
    with nd show ?thesis by (simp add: normalizeDate_older_def)
  qed
qed

lemma normalizeDate_older_DateObj: "normalizeDate_older (DateObj dt) = normalizeDate (DateObj dt)"
  by (simp add: normalizeDate_older_def normalizeDate_def)

lemma normalizeDate_older_fixed:
  assumes "normalizeDate_older x = Inr y"
  shows "normalizeDate_older y = Inr y"
proof (cases x)
  case (Str s)
  from normalizeDate_older_Str_shape [of s] obtain r where
    r: "normalizeDate_older (Str s) = Inr (Str r)" and sh: "r = s \<or> canonical_shape r" by auto
  from r assms Str have y: "y = Str r" by simp
  from sh show ?thesis
  proof
    assume "r = s" with r y show ?thesis by simp
  next
    assume "canonical_shape r" with y show ?thesis by (simp add: canonical_shape_fixed_older)
  qed
next
  case (DateObj dt)
  show ?thesis
  proof (cases dt)
    case InvalidDate
    with DateObj assms show ?thesis by (simp add: normalizeDate_older_def toISOString_def)
  next
    case (TimeValue t)
    from normalizeDate_DateObj_shape [of t] obtain r where
      r: "normalizeDate (DateObj (TimeValue t)) = Inr (Str r)" and sh: "canonical_shape r" by auto
    from r assms DateObj TimeValue have "y = Str r" by (simp add: normalizeDate_older_DateObj)
    with sh show ?thesis by (simp add: canonical_shape_fixed_older)
  qed
qed (use assms in \<open>auto simp: normalizeDate_older_def\<close>)

lemma parse_rows_dates:
  assumes "parse_rows rows acc = Inr es"
    and "\<forall>e \<in> set acc. normalizeDate (date e) = Inr (date e)"
  shows "\<forall>e \<in> set es. normalizeDate (date e) = Inr (date e)"
  using assms
proof (induction rows arbitrary: acc)
  case Nil
  then show ?case by simp
next
  case (Cons row rest)
  show ?case
  proof (cases "parse_row row")
    case (Inl e)
    with Cons.prems show ?thesis by simp
  next
    case (Inr oe)
    show ?thesis
    proof (cases oe)
      case None
      with Inr Cons show ?thesis by simp
    next
      case (Some e)
      from Inr Some have "normalizeDate (date e) = Inr (date e)"
        by (auto simp: parse_row_def split: if_splits sum.splits dest: normalizeDate_fixed)
      with Cons.prems(2) have "\<forall>e' \<in> set (acc @ [e]). normalizeDate (date e') = Inr (date e')"
        by simp
      moreover from Inr Some Cons.prems(1) have "parse_rows rest (acc @ [e]) = Inr es" by simp
      ultimately show ?thesis by (rule Cons.IH [rotated])
    qed
  qed
qed







text \<open>\<^verbatim>\<open>Number\<close> reads a string of blanks as 0, so a cell of blanks parses to the present
  value 0.\<close>

lemma parseNum_blanks: "parseNum (Str [CHR '' '', CHR '' '']) = Some (Fin 0)"
  by code_simp

subsection \<open>Number normalisation\<close>



subsection \<open>Date normalisation\<close>

text \<open>
  C9. Date normalisation is idempotent: whenever it returns a value, normalising that
  value again returns it unchanged. It returns a value for every string (in particular
  the \<^verbatim>\<open>Date(y,m,d)\<close> encoding and the slash-delimited full and partial dates) and
  for every valid native date. Hence normalising the date field of an entry produced by
  \<^verbatim>\<open>parseInputSheet\<close> is a no-op. The chain of the older copy of the module is
  idempotent as well.
\<close>

theorem normalizeDate_idempotent:
  "(normalizeDate x = Inr y \<longrightarrow> normalizeDate y = Inr y)
   \<and> (\<exists>r. normalizeDate (Str s) = Inr (Str r) \<and> normalizeDate (Str r) = Inr (Str r))
   \<and> (\<exists>r. normalizeDate (DateObj (TimeValue t)) = Inr (Str r)
          \<and> normalizeDate (Str r) = Inr (Str r))
   \<and> (parseInputSheet rows = Inr es \<longrightarrow>
        (\<forall>e \<in> set es. normalizeDate (date e) = Inr (date e)))
   \<and> (normalizeDate_older x = Inr y \<longrightarrow> normalizeDate_older y = Inr y)"
proof -
  have fixed: "normalizeDate x = Inr y \<longrightarrow> normalizeDate y = Inr y"
    by (auto dest: normalizeDate_fixed)
  have older: "normalizeDate_older x = Inr y \<longrightarrow> normalizeDate_older y = Inr y"
    by (auto dest: normalizeDate_older_fixed)
  have strings: "\<exists>r. normalizeDate (Str s) = Inr (Str r) \<and> normalizeDate (Str r) = Inr (Str r)"
    using normalizeDate_Str_shape [of s] by (auto dest: normalizeDate_fixed)
  have dates: "\<exists>r. normalizeDate (DateObj (TimeValue t)) = Inr (Str r)
          \<and> normalizeDate (Str r) = Inr (Str r)"
    using normalizeDate_DateObj_shape [of t] by (auto dest: normalizeDate_fixed)
  have entries: "parseInputSheet rows = Inr es \<longrightarrow>
        (\<forall>e \<in> set es. normalizeDate (date e) = Inr (date e))"
  proof
    assume p: "parseInputSheet rows = Inr es"
    show "\<forall>e \<in> set es. normalizeDate (date e) = Inr (date e)"
    proof (cases "length rows < 2")
      case True
      with p show ?thesis by (simp add: parseInputSheet_def)
    next
      case False
      with p have "parse_rows (drop 1 rows) [] = Inr es" by (simp add: parseInputSheet_def)
      then show ?thesis by (rule parse_rows_dates) simp
    qed
  qed
  from fixed strings dates entries older show ?thesis by blast
qed

theorem normalizeDate_idempotent_witness:
  "normalizeDate (Str ''Date(2026,0,8)'') = Inr (Str ''2026-01-08'')
   \<and> normalizeDate (Str ''2026/1/8'') = Inr (Str ''2026-01-08'')
   \<and> normalizeDate (Str ''1/8'') = Inr (Str ''2026-01-08'')
   \<and> normalizeDate (DateObj (TimeValue 1767830400000)) = Inr (Str ''2026-01-08'')
   \<and> normalizeDate (Str ''2026-01-08'') = Inr (Str ''2026-01-08'')
   \<and> parseInputSheet [[Str ''date''], [Str ''2026/1/8'', Num (Fin 101)], [Str [], Num (Fin 3)]] =
       Inr [\<lparr> date = Str ''2026-01-08'', weight = Some (Fin 101), waist = None,
               steps = None, calories_intake = None,
               protein = None, fat = None, carbs = None, notes_of = Str [] \<rparr>]"
proof -
  have a: "normalizeDate (Str ''Date(2026,0,8)'') = Inr (Str ''2026-01-08'')" by code_simp
  have b: "normalizeDate (Str ''2026/1/8'') = Inr (Str ''2026-01-08'')" by code_simp
  have c: "normalizeDate (Str ''1/8'') = Inr (Str ''2026-01-08'')" by code_simp
  have d: "normalizeDate (DateObj (TimeValue 1767830400000)) = Inr (Str ''2026-01-08'')"
    by code_simp
  have e: "parseInputSheet [[Str ''date''], [Str ''2026/1/8'', Num (Fin 101)], [Str [], Num (Fin 3)]] =
       Inr [\<lparr> date = Str ''2026-01-08'', weight = Some (Fin 101), waist = None,
               steps = None, calories_intake = None,
               protein = None, fat = None, carbs = None, notes_of = Str [] \<rparr>]"
    by code_simp
  from a e
    normalizeDate_idempotent [of "Str ''Date(2026,0,8)''" "Str ''2026-01-08''" "''1/8''" 0
      "[[Str ''date''], [Str ''2026/1/8'', Num (Fin 101)], [Str [], Num (Fin 3)]]"
      "[\<lparr> date = Str ''2026-01-08'', weight = Some (Fin 101), waist = None,
               steps = None, calories_intake = None,
               protein = None, fat = None, carbs = None, notes_of = Str [] \<rparr>]"]
  have "normalizeDate (Str ''2026-01-08'') = Inr (Str ''2026-01-08'')" by simp
  with a b c d e show ?thesis by simp
qed

section \<open>Properties of the calorie target\<close>

lemma int_div_bounds:
  fixes a b :: int
  assumes "0 < b"
  shows "b * (a div b) \<le> a" and "a < b * (a div b) + b"
  using assms pos_mod_bound [of b a] pos_mod_sign [of b a] mult_div_mod_eq [of b a]
  by linarith+

lemma days_from_year_le: "y \<le> 2025 \<Longrightarrow> days_from_year y \<le> 20100"
  unfolding days_from_year_def
  using int_div_bounds [of 4 "y - 1969", simplified]
    int_div_bounds [of 100 "y - 1901", simplified]
    int_div_bounds [of 400 "y - 1601", simplified]
    right_diff_distrib [of 365 y 1970]
  by linarith

lemma days_from_year_ge: "2027 \<le> y \<Longrightarrow> 20800 \<le> days_from_year y"
  unfolding days_from_year_def
  using int_div_bounds [of 4 "y - 1969", simplified]
    int_div_bounds [of 100 "y - 1901", simplified]
    int_div_bounds [of 400 "y - 1601", simplified]
    right_diff_distrib [of 365 y 1970]
  by linarith

lemma days_from_year_2026: "days_from_year 2026 = 20454"
  unfolding days_from_year_def by simp

lemma days_before_month_bounds:
  "0 \<le> days_before_month y m" "days_before_month y m \<le> 335"
  unfolding days_before_month_def by simp_all

lemma make_day_change_date:
  assumes "valid_date y m d"
  shows "(make_day y m d \<ge> 20473) = (\<not> (y < 2026 \<or> (y = 2026 \<and> (m < 1 \<or> (m = 1 \<and> d < 20)))))"
proof -
  from assms have m: "1 \<le> m" "m \<le> 12" and d: "1 \<le> d" "d \<le> 31"
    by (auto simp: valid_date_def days_in_month_def split: if_splits)
  consider "y \<le> 2025" | "y = 2026" | "2027 \<le> y" by linarith
  then show ?thesis
  proof cases
    case 1
    from days_from_year_le [OF 1] days_before_month_bounds(2) [of y m] d 1
    show ?thesis by (simp add: make_day_def)
  next
    case 2
    have nl: "\<not> is_leap 2026" by (simp add: is_leap_def)
    show ?thesis
    proof (cases "m = 1")
      case True
      with 2 d show ?thesis
        by (auto simp: make_day_def days_from_year_2026 days_before_month_def)
    next
      case False
      with m have "31 \<le> days_before_month 2026 m"
        by (simp add: days_before_month_def nl)
      with 2 False m d show ?thesis
        by (simp add: make_day_def days_from_year_2026)
    qed
  next
    case 3
    from days_from_year_ge [OF 3] days_before_month_bounds(1) [of y m] d 3
    show ?thesis by (simp add: make_day_def)
  qed
qed

lemma new_Date_change_date: "new_Date ''2026-01-20'' = Some (TimeValue (20473 * ms_per_day))"
  by code_simp

lemma new_Date_valid:
  assumes "parse_ymd s = Some (y, m, d)" "valid_date y m d"
  shows "new_Date s = Some (TimeValue (make_day y m d * ms_per_day))"
proof -
  from assms(1) have "s \<noteq> []" by (auto simp: parse_ymd_def split: if_splits)
  with assms show ?thesis by (simp add: new_Date_def)
qed

lemma target_by_date:
  assumes "parse_ymd s = Some (y, m, d)" "valid_date y m d"
  shows "getCalorieTargetForDate s st =
     Some (if y < 2026 \<or> (y = 2026 \<and> (m < 1 \<or> (m = 1 \<and> d < 20)))
           then or_default (goal_field g_calories_before_0120 st) 2600
           else or_default (goal_field g_calories st) 2700)"
proof -
  let ?before = "y < 2026 \<or> (y = 2026 \<and> (m < 1 \<or> (m = 1 \<and> d < 20)))"
  have ge: "date_ge (TimeValue (make_day y m d * ms_per_day)) (TimeValue (20473 * ms_per_day))
      = (\<not> ?before)"
    using make_day_change_date [OF assms(2)] by (simp add: ms_per_day_def)
  have h: "getCalorieTargetForDate s st =
      (if date_ge (TimeValue (make_day y m d * ms_per_day)) (TimeValue (20473 * ms_per_day))
       then Some (or_default (goal_field g_calories st) 2700)
       else Some (or_default (goal_field g_calories_before_0120 st) 2600))"
    unfolding getCalorieTargetForDate_def new_Date_valid [OF assms] new_Date_change_date
    by simp
  show ?thesis
  proof (cases ?before)
    case True
    with ge h have "getCalorieTargetForDate s st =
        Some (or_default (goal_field g_calories_before_0120 st) 2600)" by simp
    with True show ?thesis by (simp only: if_True)
  next
    case False
    with ge h have "getCalorieTargetForDate s st =
        Some (or_default (goal_field g_calories st) 2700)" by simp
    with False show ?thesis by (simp only: if_False)
  qed
qed

text \<open>
  C5, as the code has it. For a date string \<^verbatim>\<open>YYYY-MM-DD\<close> of a calendar date,
  \<^verbatim>\<open>getCalorieTargetForDate\<close> returns \<^verbatim>\<open>goals.calories_before_0120\<close>, or 2600 when
  that goal is absent or 0, exactly when the date is strictly before 2026-01-20, and
  \<^verbatim>\<open>goals.calories\<close>, or 2700 when that goal is absent or 0, on the change date and on
  every later date. When both goals are present and non-zero it returns the goals
  themselves.
\<close>

theorem getCalorieTargetForDate_by_date:
  assumes "parse_ymd s = Some (y, m, d)" "valid_date y m d"
  shows "getCalorieTargetForDate s st =
           Some (if y < 2026 \<or> (y = 2026 \<and> (m < 1 \<or> (m = 1 \<and> d < 20)))
                 then or_default (goal_field g_calories_before_0120 st) 2600
                 else or_default (goal_field g_calories st) 2700)
       \<and> (goals st = Some g \<longrightarrow> g_calories g = Some c \<longrightarrow> c \<noteq> 0 \<longrightarrow>
            g_calories_before_0120 g = Some b \<longrightarrow> b \<noteq> 0 \<longrightarrow>
            getCalorieTargetForDate s st =
              Some (if y < 2026 \<or> (y = 2026 \<and> (m < 1 \<or> (m = 1 \<and> d < 20))) then b else c))"
proof -
  define before where "before = (y < 2026 \<or> (y = 2026 \<and> (m < 1 \<or> (m = 1 \<and> d < 20))))"
  have general: "getCalorieTargetForDate s st =
           Some (if before
                 then or_default (goal_field g_calories_before_0120 st) 2600
                 else or_default (goal_field g_calories st) 2700)"
    unfolding before_def using assms by (rule target_by_date)
  have present: "goals st = Some g \<longrightarrow> g_calories g = Some c \<longrightarrow> c \<noteq> 0 \<longrightarrow>
            g_calories_before_0120 g = Some b \<longrightarrow> b \<noteq> 0 \<longrightarrow>
            getCalorieTargetForDate s st = Some (if before then b else c)"
    unfolding general by (simp add: goal_field_def)
  from general present show ?thesis unfolding before_def by blast
qed

theorem getCalorieTargetForDate_by_date_witness:
  "getCalorieTargetForDate ''2026-01-19'' getDefaultSettings = Some 2600
   \<and> getCalorieTargetForDate ''2026-01-20'' getDefaultSettings = Some 2700
   \<and> getCalorieTargetForDate ''2025-12-31'' (getDefaultSettings \<lparr> goals := None \<rparr>) = Some 2600
   \<and> getCalorieTargetForDate ''2027-02-28'' (getDefaultSettings \<lparr> goals := None \<rparr>) = Some 2700"
proof -
  have p: "parse_ymd ''2026-01-19'' = Some (2026, 1, 19)" "valid_date 2026 1 19"
    "parse_ymd ''2026-01-20'' = Some (2026, 1, 20)" "valid_date 2026 1 20"
    "parse_ymd ''2025-12-31'' = Some (2025, 12, 31)" "valid_date 2025 12 31"
    "parse_ymd ''2027-02-28'' = Some (2027, 2, 28)" "valid_date 2027 2 28"
    by code_simp+
  from getCalorieTargetForDate_by_date [OF p(1,2), of getDefaultSettings
      "the (goals getDefaultSettings)" 2700 2600]
    getCalorieTargetForDate_by_date [OF p(3,4), of getDefaultSettings
      "the (goals getDefaultSettings)" 2700 2600]
    getCalorieTargetForDate_by_date [OF p(5,6), of "getDefaultSettings \<lparr> goals := None \<rparr>"]
    getCalorieTargetForDate_by_date [OF p(7,8), of "getDefaultSettings \<lparr> goals := None \<rparr>"]
  show ?thesis by (simp add: getDefaultSettings_def goal_field_def)
qed

text \<open>
  Where a goal is absent or 0 the result is not that goal. The goals object that the
  module itself writes as a fallback has no \<^verbatim>\<open>calories_before_0120\<close>, and a date before
  the change gets 2600; a calorie goal of 0 gets 2700 on a later date.
\<close>

theorem getCalorieTargetForDate_fallback_counterexample:
  "g_calories_before_0120 fallback_goals = None
   \<and> getCalorieTargetForDate ''2026-01-10'' (getDefaultSettings \<lparr> goals := Some fallback_goals \<rparr>)
       = Some 2600
   \<and> getCalorieTargetForDate ''2026-01-25''
        (getDefaultSettings \<lparr> goals := Some (fallback_goals \<lparr> g_calories := Some 0 \<rparr>) \<rparr>)
       = Some 2700"
  by code_simp

section \<open>Properties of the completeness check\<close>

lemma checkDataCompleteness_days:
  "checkDataCompleteness today logs meals =
     check_day today logs meals 0 @ check_day today logs meals 1 @ check_day today logs meals 2"
proof -
  have "check_loop today logs meals 3 ws = ws" for ws
    by (simp add: check_loop.simps [of today logs meals 3])
  then show ?thesis
    by (simp add: checkDataCompleteness_def check_loop.simps [of today logs meals 0]
        check_loop.simps [of today logs meals "Suc 0"]
        check_loop.simps [of today logs meals "Suc (Suc 0)"] numeral_3_eq_3 numeral_2_eq_2)
qed

lemma missing_of_today:
  "label_calories \<notin> set (missing_of 0 l)" "label_steps \<notin> set (missing_of 0 l)"
  by (simp_all add: missing_of_def)

lemma missing_of_weight: "\<not> truthy_num (weight l) \<Longrightarrow> label_weight \<in> set (missing_of i l)"
  by (simp add: missing_of_def)

lemma missing_of_waist: "\<not> truthy_num (waist l) \<Longrightarrow> label_waist \<in> set (missing_of i l)"
  by (simp add: missing_of_def)

lemma check_day_warning:
  assumes "w \<in> set (check_day today logs meals i)"
  shows "w_day w = today - int i \<and> w_dateStr w = format_date (today - int i)
     \<and> (w_type w = no_data \<longrightarrow> 0 < i)
     \<and> (w_type w = missing_meals \<longrightarrow> 0 < i)
     \<and> (label_calories \<in> set (w_missing w) \<or> label_steps \<in> set (w_missing w) \<longrightarrow> 0 < i)"
proof (cases "find (\<lambda>l. date l = format_date (today - int i)) logs")
  case None
  with assms show ?thesis by (auto simp: check_day_def Let_def split: if_splits)
next
  case (Some l)
  show ?thesis
  proof (cases "i = 0")
    case True
    with assms Some missing_of_today [of l] show ?thesis
      by (auto simp: check_day_def Let_def split: if_splits)
  next
    case False
    with assms Some show ?thesis
      by (auto simp: check_day_def Let_def split: if_splits)
  qed
qed

lemma check_day_flags:
  assumes "find (\<lambda>l. date l = format_date (today - int i)) logs = Some l"
    and "lab \<in> set (missing_of i l)"
  shows "\<exists>w \<in> set (check_day today logs meals i).
           w_day w = today - int i \<and> w_type w = missing_fields \<and> lab \<in> set (w_missing w)"
proof -
  from assms(2) have "length (missing_of i l) > 0" by (cases "missing_of i l") auto
  with assms show ?thesis by (simp add: check_day_def Let_def)
qed

lemma completeness_all:
  "(\<forall>w \<in> set (checkDataCompleteness today logs meals).
       (w_day w = today \<or> w_day w = today - 1 \<or> w_day w = today - 2)
       \<and> w_dateStr w = format_date (w_day w)
       \<and> (w_type w = no_data \<longrightarrow> w_day w < today)
       \<and> (w_type w = missing_meals \<longrightarrow> w_day w < today)
       \<and> (label_calories \<in> set (w_missing w) \<or> label_steps \<in> set (w_missing w) \<longrightarrow> w_day w < today))"
proof
  fix w assume "w \<in> set (checkDataCompleteness today logs meals)"
  then consider "w \<in> set (check_day today logs meals 0)" | "w \<in> set (check_day today logs meals 1)"
    | "w \<in> set (check_day today logs meals 2)"
    by (auto simp: checkDataCompleteness_days)
  then show "(w_day w = today \<or> w_day w = today - 1 \<or> w_day w = today - 2)
       \<and> w_dateStr w = format_date (w_day w)
       \<and> (w_type w = no_data \<longrightarrow> w_day w < today)
       \<and> (w_type w = missing_meals \<longrightarrow> w_day w < today)
       \<and> (label_calories \<in> set (w_missing w) \<or> label_steps \<in> set (w_missing w) \<longrightarrow> w_day w < today)"
  proof cases
    case 1 from check_day_warning [OF 1] show ?thesis by simp
  next
    case 2 from check_day_warning [OF 2] show ?thesis by simp
  next
    case 3 from check_day_warning [OF 3] show ?thesis by simp
  qed
qed

lemma completeness_flags:
  assumes "i < 3" "find (\<lambda>l. date l = format_date (today - int i)) logs = Some l"
    and "lab \<in> set (missing_of i l)"
  shows "\<exists>w \<in> set (checkDataCompleteness today logs meals).
           w_day w = today - int i \<and> w_type w = missing_fields \<and> lab \<in> set (w_missing w)"
proof -
  from assms(1) consider "i = 0" | "i = 1" | "i = 2" by linarith
  then have "set (check_day today logs meals i) \<subseteq> set (checkDataCompleteness today logs meals)"
    by cases (auto simp: checkDataCompleteness_days)
  with check_day_flags [OF assms(2,3), of meals] show ?thesis by blast
qed

text \<open>
  C8. Every warning is about the reference date or one of the two days before it. No
  warning of type \<^verbatim>\<open>no_data\<close> is about the reference date, whether or not the log has
  an entry for it; a \<^verbatim>\<open>missing_meals\<close> warning and a missing calories or steps field
  occur only for days strictly before the reference date. On each of the three days
  that has a log entry, a weight that is absent or 0 is flagged, and so is such a waist.
\<close>

theorem checkDataCompleteness_reference_day:
  "(\<forall>w \<in> set (checkDataCompleteness today logs meals).
       (w_day w = today \<or> w_day w = today - 1 \<or> w_day w = today - 2)
       \<and> w_dateStr w = format_date (w_day w)
       \<and> (w_type w = no_data \<longrightarrow> w_day w < today)
       \<and> (w_type w = missing_meals \<longrightarrow> w_day w < today)
       \<and> (label_calories \<in> set (w_missing w) \<or> label_steps \<in> set (w_missing w) \<longrightarrow> w_day w < today))
   \<and> (i < 3 \<longrightarrow> find (\<lambda>l. date l = format_date (today - int i)) logs = Some l \<longrightarrow>
        (\<not> truthy_num (weight l) \<longrightarrow>
           (\<exists>w \<in> set (checkDataCompleteness today logs meals).
              w_day w = today - int i \<and> w_type w = missing_fields \<and> label_weight \<in> set (w_missing w)))
        \<and> (\<not> truthy_num (waist l) \<longrightarrow>
           (\<exists>w \<in> set (checkDataCompleteness today logs meals).
              w_day w = today - int i \<and> w_type w = missing_fields \<and> label_waist \<in> set (w_missing w))))"
proof -
  have flags: "i < 3 \<longrightarrow> find (\<lambda>l. date l = format_date (today - int i)) logs = Some l \<longrightarrow>
        (\<not> truthy_num (weight l) \<longrightarrow>
           (\<exists>w \<in> set (checkDataCompleteness today logs meals).
              w_day w = today - int i \<and> w_type w = missing_fields \<and> label_weight \<in> set (w_missing w)))
        \<and> (\<not> truthy_num (waist l) \<longrightarrow>
           (\<exists>w \<in> set (checkDataCompleteness today logs meals).
              w_day w = today - int i \<and> w_type w = missing_fields \<and> label_waist \<in> set (w_missing w)))"
    using completeness_flags [of i today logs l label_weight meals]
      completeness_flags [of i today logs l label_waist meals]
      missing_of_weight [of l i] missing_of_waist [of l i]
    by blast
  from completeness_all [of today logs meals] flags show ?thesis by blast
qed

theorem checkDataCompleteness_reference_day_witness:
  "checkDataCompleteness 20473
     [grams None None None \<lparr> date := ''2026-01-20'', waist := Some 0 \<rparr>,
      grams None None None \<lparr> date := ''2026-01-18'', weight := Some 101, calories_intake := Some 2500 \<rparr>]
     None =
     [\<lparr> w_day = 20473, w_dateStr = ''2026-01-20'', w_type = missing_fields,
         w_missing = [label_weight, label_waist] \<rparr>,
      \<lparr> w_day = 20472, w_dateStr = ''2026-01-19'', w_type = no_data, w_missing = [] \<rparr>,
      \<lparr> w_day = 20471, w_dateStr = ''2026-01-18'', w_type = missing_meals, w_missing = [] \<rparr>,
      \<lparr> w_day = 20471, w_dateStr = ''2026-01-18'', w_type = missing_fields,
         w_missing = [label_waist, label_steps] \<rparr>]
   \<and> (\<exists>w \<in> set (checkDataCompleteness 20473
         [grams None None None \<lparr> date := ''2026-01-20'', waist := Some 0 \<rparr>,
          grams None None None \<lparr> date := ''2026-01-18'', weight := Some 101, calories_intake := Some 2500 \<rparr>]
         None).
         w_day w = 20473 \<and> w_type w = missing_fields \<and> label_waist \<in> set (w_missing w))"
proof -
  let ?logs = "[grams None None None \<lparr> date := ''2026-01-20'', waist := Some 0 \<rparr>,
      grams None None None \<lparr> date := ''2026-01-18'', weight := Some 101, calories_intake := Some 2500 \<rparr>]"
  have e: "checkDataCompleteness 20473 ?logs None =
     [\<lparr> w_day = 20473, w_dateStr = ''2026-01-20'', w_type = missing_fields,
         w_missing = [label_weight, label_waist] \<rparr>,
      \<lparr> w_day = 20472, w_dateStr = ''2026-01-19'', w_type = no_data, w_missing = [] \<rparr>,
      \<lparr> w_day = 20471, w_dateStr = ''2026-01-18'', w_type = missing_meals, w_missing = [] \<rparr>,
      \<lparr> w_day = 20471, w_dateStr = ''2026-01-18'', w_type = missing_fields,
         w_missing = [label_waist, label_steps] \<rparr>]"
    by code_simp
  have f: "find (\<lambda>l. date l = format_date (20473 - int 0)) ?logs
      = Some (grams None None None \<lparr> date := ''2026-01-20'', waist := Some 0 \<rparr>)"
    by code_simp
  have t: "\<not> truthy_num (waist (grams None None None \<lparr> date := ''2026-01-20'', waist := Some 0 \<rparr>))"
    by simp
  have i: "(0::nat) < 3" by simp
  from checkDataCompleteness_reference_day [of 20473 ?logs None 0
      "grams None None None \<lparr> date := ''2026-01-20'', waist := Some 0 \<rparr>"] i f t
  have "\<exists>w \<in> set (checkDataCompleteness 20473 ?logs None).
         w_day w = 20473 \<and> w_type w = missing_fields \<and> label_waist \<in> set (w_missing w)"
    by simp
  with e show ?thesis by simp
qed

section \<open>Properties of the moving average\<close>











section \<open>Properties of the weekly statistics\<close>


















section \<open>Properties of the weight change\<close>








end
